theory Spec2Isabelle
  imports Complex_Main "HOL-Library.Word"
begin

section \<open>The NDVI notebook (docs/notebooks/COG NDVI.ipynb)\<close>

text \<open>
  The notebook reads two Landsat 8 bands through a polygon mask and computes
  \<^verbatim>\<open>
  # Download the masked area of band 3
  with rasterio.open(b3_url) as src:
      b3, b3_mask_transform = mask(dataset=src, shapes=mask_gdf.geometry, crop=True)

  # Allow division by zero
  np.seterr(divide='ignore', invalid='ignore')

  # Calculate the NDVI
  ndvi = (b4.astype(float) - b3.astype(float)) / (b4 + b3)
  \<close>
  The specification calls \<open>b3\<close> the red band and \<open>b4\<close> the near-infrared band.
  The code is a sequence of numpy array operations, so the embedding has three layers:
  float64 values, numpy arrays with broadcasting and the floating-point error state, and
  the notebook cells on top of them.
\<close>

subsection \<open>float64 values\<close>

text \<open>
  A float64 is a finite number, an infinity or not-a-number. Finite values are carried as
  exact reals: rounding inside the range and the sign of zero are not modelled. For the
  16-bit bands of the notebook the conversion to float64, the difference of two converted
  samples and the conversion of a 16-bit sum are all exact in float64, so only the final
  quotient is rounded there; rounding is monotone and leaves 0, 1, -1 and 1/4 fixed.

  Overflow and underflow are modelled, since numpy can turn them into exceptions. The
  largest float64 is \<open>2^1024 - 2^971\<close>; a result whose magnitude reaches
  \<open>2^1024 - 2^970\<close>, half a unit in the last place above it, rounds to infinity. The
  least positive normal float64 is \<open>2^-1022\<close> and the float64 values below it are the
  multiples of \<open>2^-1074\<close>; a nonzero result below \<open>2^-1022\<close> (tininess taken before
  rounding) that is not such a multiple underflows.
\<close>

datatype float64 = Fin real | PInf | NInf | NaN

definition f64_overflows :: "real \<Rightarrow> bool" where
  "f64_overflows r = (2 ^ 1024 - 2 ^ 970 \<le> \<bar>r\<bar>)"

definition f64_underflows :: "real \<Rightarrow> bool" where
  "f64_underflows r = (r \<noteq> 0 \<and> \<bar>r\<bar> < 1 / 2 ^ 1022 \<and> frac (r * 2 ^ 1074) \<noteq> 0)"

definition f64_result :: "real \<Rightarrow> float64" where
  \<comment> \<open>the float64 an operation returns for the exact result \<open>r\<close>\<close>
  "f64_result r = (if f64_overflows r then (if 0 < r then PInf else NInf) else Fin r)"

fun isfinite :: "float64 \<Rightarrow> bool" where
  "isfinite (Fin x) = True"
| "isfinite _ = False"

fun isinf :: "float64 \<Rightarrow> bool" where
  "isinf PInf = True"
| "isinf NInf = True"
| "isinf _ = False"

fun fneg :: "float64 \<Rightarrow> float64" where
  "fneg (Fin x) = Fin (- x)"
| "fneg PInf = NInf"
| "fneg NInf = PInf"
| "fneg NaN = NaN"

fun fadd :: "float64 \<Rightarrow> float64 \<Rightarrow> float64" where
  "fadd NaN b = NaN"
| "fadd a NaN = NaN"
| "fadd (Fin x) (Fin y) = f64_result (x + y)"
| "fadd PInf NInf = NaN"
| "fadd NInf PInf = NaN"
| "fadd PInf b = PInf"
| "fadd NInf b = NInf"
| "fadd (Fin x) b = b"

definition fsub :: "float64 \<Rightarrow> float64 \<Rightarrow> float64" where
  "fsub a b = fadd a (fneg b)"

fun fdiv :: "float64 \<Rightarrow> float64 \<Rightarrow> float64" where
  "fdiv NaN b = NaN"
| "fdiv a NaN = NaN"
| "fdiv (Fin x) (Fin y) =
     (if y = 0 then (if x = 0 then NaN else if 0 < x then PInf else NInf)
      else f64_result (x / y))"
| "fdiv (Fin x) b = Fin 0"
| "fdiv PInf (Fin y) = (if 0 \<le> y then PInf else NInf)"
| "fdiv NInf (Fin y) = (if 0 \<le> y then NInf else PInf)"
| "fdiv a b = NaN"

text \<open>The IEEE 754 exceptions that numpy's error state reacts to.\<close>

definition add_invalid :: "float64 \<Rightarrow> float64 \<Rightarrow> bool" where
  "add_invalid a b = ((a = PInf \<and> b = NInf) \<or> (a = NInf \<and> b = PInf))"

definition sub_invalid :: "float64 \<Rightarrow> float64 \<Rightarrow> bool" where
  "sub_invalid a b = add_invalid a (fneg b)"

definition div_invalid :: "float64 \<Rightarrow> float64 \<Rightarrow> bool" where
  "div_invalid a b = ((a = Fin 0 \<and> b = Fin 0) \<or> (isinf a \<and> isinf b))"

definition div_by_zero :: "float64 \<Rightarrow> float64 \<Rightarrow> bool" where
  "div_by_zero a b = (b = Fin 0 \<and> (case a of Fin x \<Rightarrow> x \<noteq> 0 | _ \<Rightarrow> False))"

definition add_overflow :: "float64 \<Rightarrow> float64 \<Rightarrow> bool" where
  "add_overflow a b = (case (a, b) of (Fin x, Fin y) \<Rightarrow> f64_overflows (x + y) | _ \<Rightarrow> False)"

definition sub_overflow :: "float64 \<Rightarrow> float64 \<Rightarrow> bool" where
  "sub_overflow a b = add_overflow a (fneg b)"

definition div_overflow :: "float64 \<Rightarrow> float64 \<Rightarrow> bool" where
  "div_overflow a b =
     (case (a, b) of (Fin x, Fin y) \<Rightarrow> y \<noteq> 0 \<and> f64_overflows (x / y) | _ \<Rightarrow> False)"

definition div_underflow :: "float64 \<Rightarrow> float64 \<Rightarrow> bool" where
  \<comment> \<open>a sum or difference of two float64 is exact when it is tiny, so only the quotient
      can underflow\<close>
  "div_underflow a b =
     (case (a, b) of (Fin x, Fin y) \<Rightarrow> y \<noteq> 0 \<and> f64_underflows (x / y) | _ \<Rightarrow> False)"

subsection \<open>numpy's floating-point error state\<close>

text \<open>
  \<open>np.seterr\<close> changes a setting that lives outside every array and stays changed
  until it is set again. numpy starts with \<open>divide='warn', over='warn', under='ignore',
  invalid='warn'\<close>. Only the mode \<open>raise\<close> turns a flagged operation into a
  \<open>FloatingPointError\<close>; the others let the operation return. The cell sets
  \<open>divide\<close> and \<open>invalid\<close>; \<open>over\<close> and \<open>under\<close> keep what the session had.
\<close>

datatype errmode = Ignore | Warn | Raise | Call | Print | Log

record errstate =
  divide :: errmode
  over :: errmode
  under :: errmode
  invalid :: errmode

definition np_default_errstate :: errstate where
  "np_default_errstate = \<lparr>divide = Warn, over = Warn, under = Ignore, invalid = Warn\<rparr>"

definition seterr :: "errmode \<Rightarrow> errmode \<Rightarrow> errstate \<Rightarrow> errstate" where
  \<comment> \<open>\<open>np.seterr(divide=d, invalid=i)\<close>: the two named settings change, the rest stay.\<close>
  "seterr d i st = st\<lparr>divide := d, invalid := i\<rparr>"

datatype error = ValueError | FloatingPointError | RasterioIOError

subsection \<open>numpy arrays and broadcasting\<close>

text \<open>
  An array is a shape and its elements in row-major order, all of one dtype: unsigned
  16-bit integers (the dtype of the Landsat bands) or float64.
\<close>

datatype data = UInt16 "16 word list" | Float64 "float64 list"

record ndarray =
  shape :: "nat list"
  dat :: data

fun data_len :: "data \<Rightarrow> nat" where
  "data_len (UInt16 xs) = length xs"
| "data_len (Float64 xs) = length xs"

definition wf_array :: "ndarray \<Rightarrow> bool" where
  \<comment> \<open>numpy's invariant: an array holds exactly as many elements as its shape says.\<close>
  "wf_array a = (data_len (dat a) = prod_list (shape a))"

definition of_u16 :: "16 word \<Rightarrow> float64" where
  "of_u16 w = Fin (real (unat w))"

fun to_floats :: "data \<Rightarrow> float64 list" where
  "to_floats (UInt16 xs) = map of_u16 xs"
| "to_floats (Float64 xs) = xs"

definition astype_float :: "ndarray \<Rightarrow> ndarray" where
  \<comment> \<open>\<open>a.astype(float)\<close>: a new float64 array of the same shape.\<close>
  "astype_float a = \<lparr>shape = shape a, dat = Float64 (to_floats (dat a))\<rparr>"

text \<open>
  Broadcasting aligns two shapes at their last axis. Two axis lengths are compatible when
  they are equal or one of them is 1; a missing leading axis counts as 1. The functions
  below work on reversed shapes (last axis first).
\<close>

fun bc_shape :: "nat list \<Rightarrow> nat list \<Rightarrow> nat list option" where
  "bc_shape [] ts = Some ts"
| "bc_shape ds [] = Some ds"
| "bc_shape (d # ds) (t # ts) =
     (if d = t \<or> t = 1 then map_option ((#) d) (bc_shape ds ts)
      else if d = 1 then map_option ((#) t) (bc_shape ds ts)
      else None)"

definition broadcast_shapes :: "nat list \<Rightarrow> nat list \<Rightarrow> nat list option" where
  "broadcast_shapes s1 s2 = map_option rev (bc_shape (rev s1) (rev s2))"

fun bc_index :: "nat list \<Rightarrow> nat list \<Rightarrow> nat \<Rightarrow> nat" where
  \<comment> \<open>the row-major position in an operand of shape \<open>ds\<close> that position \<open>i\<close> of the
      result of shape \<open>ts\<close> reads: an axis of length 1 is read at 0 all along\<close>
  "bc_index (d # ds) (t # ts) i =
     (if d = 1 then 0 else i mod t) + d * bc_index ds ts (i div t)"
| "bc_index ds ts i = 0"

definition broadcast2 ::
  "nat list \<Rightarrow> 'a list \<Rightarrow> nat list \<Rightarrow> 'b list \<Rightarrow> (nat list \<times> ('a \<times> 'b) list) option" where
  "broadcast2 s1 xs s2 ys =
     (case broadcast_shapes s1 s2 of
        None \<Rightarrow> None
      | Some s \<Rightarrow>
          Some (s, map (\<lambda>i. (xs ! bc_index (rev s1) (rev s) i, ys ! bc_index (rev s2) (rev s) i))
                     [0..<prod_list s]))"

text \<open>
  A float ufunc: operands that cannot be broadcast raise \<open>ValueError\<close> before anything
  is computed; an element that flags invalid, divide, over or under raises
  \<open>FloatingPointError\<close> when that flag's mode is \<open>raise\<close>.
\<close>

definition float_ufunc ::
  "(float64 \<Rightarrow> float64 \<Rightarrow> float64) \<Rightarrow> (errstate \<Rightarrow> float64 \<Rightarrow> float64 \<Rightarrow> bool) \<Rightarrow>
   errstate \<Rightarrow> nat list \<Rightarrow> float64 list \<Rightarrow> nat list \<Rightarrow> float64 list \<Rightarrow> error + ndarray" where
  "float_ufunc f raises st s1 xs s2 ys =
     (case broadcast2 s1 xs s2 ys of
        None \<Rightarrow> Inl ValueError
      | Some (s, ps) \<Rightarrow>
          if list_ex (\<lambda>(a, b). raises st a b) ps then Inl FloatingPointError
          else Inr \<lparr>shape = s, dat = Float64 (map (\<lambda>(a, b). f a b) ps)\<rparr>)"

definition sub_raises :: "errstate \<Rightarrow> float64 \<Rightarrow> float64 \<Rightarrow> bool" where
  "sub_raises st a b =
     ((invalid st = Raise \<and> sub_invalid a b) \<or> (over st = Raise \<and> sub_overflow a b))"

definition add_raises :: "errstate \<Rightarrow> float64 \<Rightarrow> float64 \<Rightarrow> bool" where
  "add_raises st a b =
     ((invalid st = Raise \<and> add_invalid a b) \<or> (over st = Raise \<and> add_overflow a b))"

definition div_raises :: "errstate \<Rightarrow> float64 \<Rightarrow> float64 \<Rightarrow> bool" where
  "div_raises st a b =
     ((invalid st = Raise \<and> div_invalid a b) \<or> (divide st = Raise \<and> div_by_zero a b) \<or>
      (over st = Raise \<and> div_overflow a b) \<or> (under st = Raise \<and> div_underflow a b))"

definition np_subtract :: "errstate \<Rightarrow> ndarray \<Rightarrow> ndarray \<Rightarrow> error + ndarray" where
  \<comment> \<open>\<open>a - b\<close>: two uint16 arrays subtract in uint16 and wrap; otherwise in float64\<close>
  "np_subtract st a b =
     (case (dat a, dat b) of
        (UInt16 xs, UInt16 ys) \<Rightarrow>
          (case broadcast2 (shape a) xs (shape b) ys of
             None \<Rightarrow> Inl ValueError
           | Some (s, ps) \<Rightarrow> Inr \<lparr>shape = s, dat = UInt16 (map (\<lambda>(x, y). x - y) ps)\<rparr>)
      | (da, db) \<Rightarrow>
          float_ufunc fsub sub_raises st (shape a) (to_floats da) (shape b) (to_floats db))"

definition np_add :: "errstate \<Rightarrow> ndarray \<Rightarrow> ndarray \<Rightarrow> error + ndarray" where
  \<comment> \<open>\<open>a + b\<close>: two uint16 arrays add in uint16 and wrap silently; otherwise in float64\<close>
  "np_add st a b =
     (case (dat a, dat b) of
        (UInt16 xs, UInt16 ys) \<Rightarrow>
          (case broadcast2 (shape a) xs (shape b) ys of
             None \<Rightarrow> Inl ValueError
           | Some (s, ps) \<Rightarrow> Inr \<lparr>shape = s, dat = UInt16 (map (\<lambda>(x, y). x + y) ps)\<rparr>)
      | (da, db) \<Rightarrow>
          float_ufunc fadd add_raises st (shape a) (to_floats da) (shape b) (to_floats db))"

definition np_true_divide :: "errstate \<Rightarrow> ndarray \<Rightarrow> ndarray \<Rightarrow> error + ndarray" where
  \<comment> \<open>\<open>a / b\<close>: always in float64, integer operands are converted first\<close>
  "np_true_divide st a b =
     float_ufunc fdiv div_raises st (shape a) (to_floats (dat a)) (shape b) (to_floats (dat b))"

subsection \<open>The NDVI cell\<close>

definition ndvi :: "errstate \<Rightarrow> ndarray \<Rightarrow> ndarray \<Rightarrow> errstate \<times> (error + ndarray)" where
  \<comment> \<open>\<open>ndvi st b3 b4\<close> runs the cell from error state \<open>st\<close> with the red band \<open>b3\<close> and
      the near-infrared band \<open>b4\<close>; it returns the error state left behind and the value
      bound to \<open>ndvi\<close>, or the exception\<close>
  "ndvi st b3 b4 =
     (let st' = seterr Ignore Ignore st
      in (st',
          case np_subtract st' (astype_float b4) (astype_float b3) of
            Inl e \<Rightarrow> Inl e
          | Inr num \<Rightarrow>
              (case np_add st' b4 b3 of
                 Inl e \<Rightarrow> Inl e
               | Inr den \<Rightarrow> np_true_divide st' num den)))"

text \<open>
  For two bands of one shape nothing is broadcast, and the cell computes each position
  from the two samples there. \<open>sum_at\<close> is the element of \<open>b4 + b3\<close> at a position:
  the 16-bit sum when both bands are uint16, the float64 sum otherwise. \<open>ndvi_at\<close>
  is the element of the result.
\<close>

definition sum_at :: "ndarray \<Rightarrow> ndarray \<Rightarrow> nat \<Rightarrow> float64" where
  "sum_at b3 b4 i =
     (case (dat b4, dat b3) of
        (UInt16 ys, UInt16 xs) \<Rightarrow> of_u16 (ys ! i + xs ! i)
      | (da, db) \<Rightarrow> fadd (to_floats da ! i) (to_floats db ! i))"

definition ndvi_at :: "ndarray \<Rightarrow> ndarray \<Rightarrow> nat \<Rightarrow> float64" where
  "ndvi_at b3 b4 i =
     fdiv (fsub (to_floats (dat b4) ! i) (to_floats (dat b3) ! i)) (sum_at b3 b4 i)"

text \<open>
  The specification's formula, in its own words: both samples are promoted to floating
  point first, then \<open>(nir - red) / (nir + red)\<close>.
\<close>

definition ndvi_formula :: "float64 \<Rightarrow> float64 \<Rightarrow> float64" where
  "ndvi_formula red nir = fdiv (fsub nir red) (fadd nir red)"

fun unit_or_nonfinite :: "float64 \<Rightarrow> bool" where
  "unit_or_nonfinite (Fin v) = (- 1 \<le> v \<and> v \<le> 1)"
| "unit_or_nonfinite _ = True"

fun is_negative :: "float64 \<Rightarrow> bool" where
  "is_negative (Fin v) = (v < 0)"
| "is_negative NInf = True"
| "is_negative _ = False"

text \<open>
  When no operation of the cell can turn an overflow or an underflow into an exception:
  the session has neither \<open>over\<close> nor \<open>under\<close> on \<open>raise\<close> (numpy's initial
  state has not), or both bands are well-formed uint16 arrays, whose differences, sums and
  quotients stay far inside the float64 range.
\<close>

fun is_uint16 :: "data \<Rightarrow> bool" where
  "is_uint16 (UInt16 xs) = True"
| "is_uint16 (Float64 xs) = False"

definition fp_quiet :: "errstate \<Rightarrow> ndarray \<Rightarrow> ndarray \<Rightarrow> bool" where
  "fp_quiet st b3 b4 =
     ((over st \<noteq> Raise \<and> under st \<noteq> Raise) \<or>
      (is_uint16 (dat b3) \<and> is_uint16 (dat b4) \<and> wf_array b3 \<and> wf_array b4))"

subsection \<open>The masked read cells\<close>

text \<open>
  \<^verbatim>\<open>
  with rasterio.open(b3_url) as src:
      b3, b3_mask_transform = mask(dataset=src, shapes=mask_gdf.geometry, crop=True)
  \<close>
  \<open>rasterio.open\<close> and \<open>rasterio.mask.mask\<close> are library calls. What a location
  serves is the \<open>store\<close> of the world (\<open>None\<close> when it cannot be opened), and
  \<open>mask_fn\<close> (the library's \<open>mask\<close>) is any function from the dataset, the shapes
  and the crop flag to a result or an exception. The model follows the dataset handle: a
  successful open adds it to the handles the process holds, and leaving the \<open>with\<close> block closes it, whether the
  body returned or raised; the body's exception is raised again after the close.
\<close>

record 'd world =
  store :: "string \<Rightarrow> 'd option"
  opened :: "string list"

definition rasterio_open :: "string \<Rightarrow> 'd world \<Rightarrow> 'd world \<times> (error + 'd)" where
  "rasterio_open url w =
     (case store w url of
        None \<Rightarrow> (w, Inl RasterioIOError)
      | Some d \<Rightarrow> (w\<lparr>opened := url # opened w\<rparr>, Inr d))"

definition dataset_close :: "string \<Rightarrow> 'd world \<Rightarrow> 'd world" where
  "dataset_close url w = w\<lparr>opened := remove1 url (opened w)\<rparr>"

definition read_masked ::
  "('d \<Rightarrow> 'g \<Rightarrow> bool \<Rightarrow> error + 'r) \<Rightarrow> string \<Rightarrow> 'g \<Rightarrow> 'd world \<Rightarrow> 'd world \<times> (error + 'r)" where
  "read_masked mask_fn url shapes w =
     (case rasterio_open url w of
        (w1, Inl e) \<Rightarrow> (w1, Inl e)
      | (w1, Inr src) \<Rightarrow>
          (let r = mask_fn src shapes True
           in (dataset_close url w1, r)))"

section \<open>Properties\<close>

subsection \<open>Broadcasting two equal shapes\<close>

lemma bc_shape_same: "bc_shape ds ds = Some ds"
  by (induction ds) auto

lemma broadcast_shapes_same: "broadcast_shapes s s = Some s"
  by (simp add: broadcast_shapes_def bc_shape_same)

lemma bc_index_same: "i < prod_list ds \<Longrightarrow> bc_index ds ds i = i"
proof (induction ds arbitrary: i)
  case Nil
  then show ?case by simp
next
  case (Cons d ds)
  show ?case
  proof (cases "d = 1")
    case True
    with Cons show ?thesis by simp
  next
    case False
    from Cons.prems have "i div d < prod_list ds"
      by (simp add: less_mult_imp_div_less mult.commute)
    then have "bc_index ds ds (i div d) = i div d" by (rule Cons.IH)
    with False show ?thesis by simp
  qed
qed

lemma broadcast2_same:
  "broadcast2 s xs s ys = Some (s, map (\<lambda>i. (xs ! i, ys ! i)) [0..<prod_list s])"
  by (simp add: broadcast2_def broadcast_shapes_same bc_index_same)

lemma broadcast2_None:
  "broadcast_shapes s1 s2 = None \<Longrightarrow> broadcast2 s1 xs s2 ys = None"
  by (simp add: broadcast2_def)

lemma broadcast2_Some:
  "broadcast_shapes s1 s2 = Some s \<Longrightarrow> \<exists>ps. broadcast2 s1 xs s2 ys = Some (s, ps)"
  by (simp add: broadcast2_def)

subsection \<open>Results far from the overflow threshold\<close>

lemma pow_gap: "(2::real) ^ 64 < 2 ^ 1024 - 2 ^ 970"
proof -
  define a :: real where "a = 2 ^ 970"
  define b :: real where "b = 2 ^ 1024"
  define c :: real where "c = 2 ^ 64"
  have pos: "0 < c" by (simp add: c_def)
  have ca: "c \<le> a" unfolding c_def a_def by (rule power_increasing) simp_all
  have "a * 2 ^ 54 = b" unfolding a_def b_def
    by (simp only: power_add [symmetric] numeral_plus_numeral) simp
  moreover have "a * 3 \<le> a * 2 ^ 54"
    by (rule mult_left_mono) (simp_all add: a_def)
  ultimately have "a * 3 \<le> b" by simp
  with ca pos have "c < b - a" by linarith
  then show ?thesis by (simp only: a_def b_def c_def)
qed

lemma f64_small_no_overflow: "\<bar>r\<bar> \<le> 2 ^ 64 \<Longrightarrow> \<not> f64_overflows r"
  using pow_gap unfolding f64_overflows_def by linarith

lemma f64_result_small: "\<bar>r\<bar> \<le> 2 ^ 64 \<Longrightarrow> f64_result r = Fin r"
  by (simp only: f64_result_def f64_small_no_overflow if_False)

subsection \<open>No exception when no flag that is set is on \<open>raise\<close>\<close>

text \<open>
  The cell sets \<open>divide\<close> and \<open>invalid\<close> to \<open>ignore\<close>. When the session has
  neither \<open>over\<close> nor \<open>under\<close> on \<open>raise\<close> (numpy's initial state has not), no
  operation of the cell can raise \<open>FloatingPointError\<close>.
\<close>

lemma seterr_fields:
  "invalid (seterr Ignore Ignore st) = Ignore" "divide (seterr Ignore Ignore st) = Ignore"
  "over (seterr Ignore Ignore st) = over st" "under (seterr Ignore Ignore st) = under st"
  by (simp_all add: seterr_def)

lemma no_raise_ignored:
  assumes "over st \<noteq> Raise" "under st \<noteq> Raise"
  shows "\<not> sub_raises (seterr Ignore Ignore st) a b"
    and "\<not> add_raises (seterr Ignore Ignore st) a b"
    and "\<not> div_raises (seterr Ignore Ignore st) a b"
  using assms by (simp_all add: sub_raises_def add_raises_def div_raises_def seterr_fields)

lemma list_ex_never: "(\<And>a b. \<not> r a b) \<Longrightarrow> \<not> list_ex (\<lambda>(a, b). r a b) ps"
  by (induction ps) auto

lemma float_ufunc_same:
  assumes "\<And>a b. \<not> raises st a b"
  shows "float_ufunc f raises st s xs s ys =
         Inr \<lparr>shape = s, dat = Float64 (map (\<lambda>i. f (xs ! i) (ys ! i)) [0..<prod_list s])\<rparr>"
  using list_ex_never [of "raises st", OF assms]
  by (simp add: float_ufunc_def broadcast2_same comp_def)

lemma float_ufunc_None:
  "broadcast_shapes s1 s2 = None \<Longrightarrow> float_ufunc f raises st s1 xs s2 ys = Inl ValueError"
  by (simp add: float_ufunc_def broadcast2_None)

lemma float_ufunc_Some:
  assumes "broadcast_shapes s1 s2 = Some s" and "\<And>a b. \<not> raises st a b"
  shows "\<exists>fs. float_ufunc f raises st s1 xs s2 ys = Inr \<lparr>shape = s, dat = Float64 fs\<rparr>"
proof -
  from broadcast2_Some [OF assms(1)] obtain ps where "broadcast2 s1 xs s2 ys = Some (s, ps)"
    by blast
  with list_ex_never [of "raises st" ps, OF assms(2)] show ?thesis
    by (simp add: float_ufunc_def)
qed

lemma float_ufunc_no_ValueError:
  assumes "broadcast_shapes s1 s2 = Some s"
  shows "float_ufunc f raises st s1 xs s2 ys = Inl FloatingPointError \<or>
         (\<exists>fs. float_ufunc f raises st s1 xs s2 ys = Inr \<lparr>shape = s, dat = Float64 fs\<rparr>)"
proof -
  from broadcast2_Some [OF assms] obtain ps where "broadcast2 s1 xs s2 ys = Some (s, ps)"
    by blast
  then show ?thesis
    by (simp add: float_ufunc_def)
qed

subsection \<open>The cell on two bands of one shape\<close>

lemma np_add_same:
  assumes "shape b3 = shape b4" "over st \<noteq> Raise" "under st \<noteq> Raise"
  shows "\<exists>den. np_add (seterr Ignore Ignore st) b4 b3 = Inr den \<and> shape den = shape b3 \<and>
           (\<forall>i < prod_list (shape b3). to_floats (dat den) ! i = sum_at b3 b4 i)"
  using assms(1) no_raise_ignored(2) [OF assms(2,3)]
  by (cases "dat b4"; cases "dat b3")
     (simp_all add: np_add_def broadcast2_same float_ufunc_same sum_at_def)

lemma ndvi_same_shape:
  assumes "shape b3 = shape b4" "over st \<noteq> Raise" "under st \<noteq> Raise"
  shows "snd (ndvi st b3 b4) =
         Inr \<lparr>shape = shape b3, dat = Float64 (map (ndvi_at b3 b4) [0..<prod_list (shape b3)])\<rparr>"
proof -
  let ?st = "seterr Ignore Ignore st"
  let ?n = "prod_list (shape b3)"
  let ?num = "\<lparr>shape = shape b3,
      dat = Float64 (map (\<lambda>i. fsub (to_floats (dat b4) ! i) (to_floats (dat b3) ! i)) [0..<?n])\<rparr>"
  note quiet = no_raise_ignored [OF assms(2,3)]
  have num: "np_subtract ?st (astype_float b4) (astype_float b3) = Inr ?num"
    using assms(1) quiet(1)
    by (simp add: np_subtract_def astype_float_def float_ufunc_same)
  from np_add_same [OF assms] obtain den where
    den: "np_add ?st b4 b3 = Inr den" "shape den = shape b3"
      "\<forall>i < ?n. to_floats (dat den) ! i = sum_at b3 b4 i"
    by blast
  have "np_true_divide ?st ?num den =
        Inr \<lparr>shape = shape b3, dat = Float64 (map (ndvi_at b3 b4) [0..<?n])\<rparr>"
    using den(2,3) quiet(3)
    by (simp add: np_true_divide_def float_ufunc_same ndvi_at_def)
  with num den(1) show ?thesis
    by (simp add: ndvi_def Let_def)
qed

lemma default_quiet: "over np_default_errstate \<noteq> Raise" "under np_default_errstate \<noteq> Raise"
  by (simp_all add: np_default_errstate_def)

subsection \<open>The sum on broadcastable shapes\<close>

lemma np_add_float:
  assumes "\<not> (\<exists>ys xs. dat b4 = UInt16 ys \<and> dat b3 = UInt16 xs)"
  shows "np_add st b4 b3 =
         float_ufunc fadd add_raises st (shape b4) (to_floats (dat b4)) (shape b3) (to_floats (dat b3))"
proof (cases "dat b4")
  case (UInt16 ys)
  with assms obtain fs where "dat b3 = Float64 fs" by (cases "dat b3") auto
  with UInt16 show ?thesis by (simp add: np_add_def)
next
  case (Float64 fs)
  then show ?thesis by (cases "dat b3") (simp_all add: np_add_def)
qed

lemma np_add_uint16:
  assumes "dat b4 = UInt16 ys" "dat b3 = UInt16 xs"
    and "broadcast_shapes (shape b4) (shape b3) = Some s"
  shows "\<exists>den. np_add st b4 b3 = Inr den \<and> shape den = s"
proof -
  from broadcast2_Some [OF assms(3), of ys xs] obtain ps where
    "broadcast2 (shape b4) ys (shape b3) xs = Some (s, ps)" by blast
  with assms(1,2) show ?thesis by (simp add: np_add_def)
qed

lemma np_add_Some:
  assumes "broadcast_shapes (shape b4) (shape b3) = Some s"
  shows "np_add st b4 b3 = Inl FloatingPointError \<or>
         (\<exists>den. np_add st b4 b3 = Inr den \<and> shape den = s)"
proof (cases "\<exists>ys xs. dat b4 = UInt16 ys \<and> dat b3 = UInt16 xs")
  case True
  then obtain ys xs where "dat b4 = UInt16 ys" "dat b3 = UInt16 xs" by blast
  from np_add_uint16 [OF this assms] show ?thesis by blast
next
  case False
  then have eq: "np_add st b4 b3 =
      float_ufunc fadd add_raises st (shape b4) (to_floats (dat b4)) (shape b3) (to_floats (dat b3))"
    by (rule np_add_float)
  from float_ufunc_no_ValueError [OF assms, of fadd add_raises st "to_floats (dat b4)" "to_floats (dat b3)"]
  show ?thesis
  proof
    assume "float_ufunc fadd add_raises st (shape b4) (to_floats (dat b4)) (shape b3)
              (to_floats (dat b3)) = Inl FloatingPointError"
    with eq show ?thesis by simp
  next
    assume "\<exists>fs. float_ufunc fadd add_raises st (shape b4) (to_floats (dat b4)) (shape b3)
              (to_floats (dat b3)) = Inr \<lparr>shape = s, dat = Float64 fs\<rparr>"
    then obtain fs where "np_add st b4 b3 = Inr \<lparr>shape = s, dat = Float64 fs\<rparr>"
      using eq by auto
    then show ?thesis by simp
  qed
qed

lemma np_add_Some_quiet:
  assumes "broadcast_shapes (shape b4) (shape b3) = Some s" "over st \<noteq> Raise" "under st \<noteq> Raise"
  shows "\<exists>den. np_add (seterr Ignore Ignore st) b4 b3 = Inr den \<and> shape den = s"
proof (cases "\<exists>ys xs. dat b4 = UInt16 ys \<and> dat b3 = UInt16 xs")
  case True
  then obtain ys xs where "dat b4 = UInt16 ys" "dat b3 = UInt16 xs" by blast
  from np_add_uint16 [OF this assms(1)] show ?thesis by blast
next
  case False
  let ?st = "seterr Ignore Ignore st"
  from False have eq: "np_add ?st b4 b3 =
      float_ufunc fadd add_raises ?st (shape b4) (to_floats (dat b4)) (shape b3) (to_floats (dat b3))"
    by (rule np_add_float)
  from float_ufunc_Some [OF assms(1), of add_raises ?st fadd "to_floats (dat b4)" "to_floats (dat b3)"]
    no_raise_ignored(2) [OF assms(2,3)]
  obtain fs where "np_add ?st b4 b3 = Inr \<lparr>shape = s, dat = Float64 fs\<rparr>"
    using eq by auto
  then show ?thesis by simp
qed

subsection \<open>Arithmetic of single elements\<close>

lemma no_overflow_zero: "\<not> f64_overflows 0"
  using f64_small_no_overflow [of 0] by simp

lemma f64_result_zero: "f64_result 0 = Fin 0"
  using f64_result_small [of 0] by simp

lemma overflow_nonzero: "f64_overflows r \<Longrightarrow> r \<noteq> 0"
  using no_overflow_zero by auto

lemma f64_result_overflow: "f64_overflows r \<Longrightarrow> f64_result r = PInf \<or> f64_result r = NInf"
  by (simp add: f64_result_def)

lemma overflow_mono: "f64_overflows r \<Longrightarrow> \<bar>r\<bar> \<le> \<bar>r'\<bar> \<Longrightarrow> f64_overflows r'"
  unfolding f64_overflows_def by linarith

lemma fdiv_zero_nonfinite: "\<not> isfinite (fdiv a (Fin 0))"
  by (cases a) simp_all

lemma of_u16_sum_small: "\<bar>real (unat (y :: 16 word)) + real (unat (x :: 16 word))\<bar> \<le> 2 ^ 64"
proof -
  have "unat y < 2 ^ 16" "unat x < 2 ^ 16"
    using unsigned_less [of y, where ?'a = nat] unsigned_less [of x, where ?'a = nat] by simp_all
  then have "unat y + unat x \<le> 2 ^ 64" by simp
  then have "real (unat y + unat x) \<le> real (2 ^ 64)"
    by (simp only: of_nat_le_iff)
  then have "real (unat y) + real (unat x) \<le> 2 ^ 64"
    by (simp only: of_nat_add of_nat_power of_nat_numeral)
  moreover have "0 \<le> real (unat y) + real (unat x)"
    by (intro add_nonneg_nonneg of_nat_0_le_iff)
  ultimately show ?thesis by linarith
qed

lemma fadd_of_u16: "fadd (of_u16 y) (of_u16 x) = Fin (real (unat y) + real (unat x))"
  unfolding of_u16_def by (simp only: fadd.simps f64_result_small [OF of_u16_sum_small])

lemma of_u16_sum_zero:
  assumes "fadd (of_u16 y) (of_u16 x) = Fin 0"
  shows "y = 0 \<and> x = 0"
proof -
  from assms have "real (unat y) + real (unat x) = 0"
    by (simp only: fadd_of_u16 float64.inject)
  then have "real (unat y + unat x) = real 0"
    by (simp only: of_nat_add of_nat_0)
  then have "unat y + unat x = 0"
    by (simp only: of_nat_eq_iff)
  then show ?thesis
    by (simp add: unat_eq_0)
qed

lemma exact_zero_sum_at:
  assumes "shape b3 = shape b4" "wf_array b3" "wf_array b4" "i < prod_list (shape b3)"
    and "fadd (to_floats (dat b4) ! i) (to_floats (dat b3) ! i) = Fin 0"
  shows "sum_at b3 b4 i = Fin 0"
proof (cases "dat b4")
  case (UInt16 ys)
  note b4 = this
  show ?thesis
  proof (cases "dat b3")
    case (UInt16 xs)
    from assms b4 UInt16 have "fadd (of_u16 (ys ! i)) (of_u16 (xs ! i)) = Fin 0"
      by (simp add: wf_array_def)
    then have "ys ! i = 0 \<and> xs ! i = 0"
      by (rule of_u16_sum_zero)
    with b4 UInt16 show ?thesis
      by (simp add: sum_at_def of_u16_def)
  next
    case (Float64 xs)
    with b4 assms(5) show ?thesis by (simp add: sum_at_def)
  qed
next
  case (Float64 ys)
  with assms(5) show ?thesis by (cases "dat b3") (simp_all add: sum_at_def)
qed

lemma fdiv_unit_fin:
  assumes "0 \<le> a" "0 \<le> b"
  shows "unit_or_nonfinite (fdiv (fsub (Fin a) (Fin b)) (fadd (Fin a) (Fin b)))"
proof (cases "f64_overflows (a + b)")
  case True
  with assms have "0 < a + b" using overflow_nonzero [OF True] by linarith
  with True have den: "fadd (Fin a) (Fin b) = PInf"
    by (simp add: f64_result_def)
  show ?thesis
  proof (cases "f64_overflows (a - b)")
    case True
    from f64_result_overflow [OF this] den show ?thesis
      by (auto simp: fsub_def)
  next
    case False
    with den show ?thesis by (simp add: fsub_def f64_result_def)
  qed
next
  case False
  have "\<bar>a - b\<bar> \<le> \<bar>a + b\<bar>" using assms by linarith
  with False have nov: "\<not> f64_overflows (a - b)"
    using overflow_mono by blast
  show ?thesis
  proof (cases "a + b = 0")
    case True
    with False nov have "fdiv (fsub (Fin a) (Fin b)) (fadd (Fin a) (Fin b)) = fdiv (Fin (a - b)) (Fin 0)"
      by (simp add: fsub_def f64_result_def)
    moreover have "\<not> isfinite (fdiv (Fin (a - b)) (Fin 0))" by (rule fdiv_zero_nonfinite)
    ultimately show ?thesis
      by (cases "fdiv (Fin (a - b)) (Fin 0)") simp_all
  next
    case nz: False
    with assms have q: "- 1 \<le> (a - b) / (a + b) \<and> (a - b) / (a + b) \<le> 1"
      by (simp add: field_simps)
    moreover have "(1::real) \<le> 2 ^ 64" by simp
    ultimately have "\<bar>(a - b) / (a + b)\<bar> \<le> 2 ^ 64" by linarith
    then have "f64_result ((a - b) / (a + b)) = Fin ((a - b) / (a + b))"
      by (rule f64_result_small)
    with False nov nz q show ?thesis
      by (simp add: fsub_def f64_result_def)
  qed
qed

lemma fdiv_unit:
  assumes "\<not> is_negative r" "\<not> is_negative n"
  shows "unit_or_nonfinite (fdiv (fsub n r) (fadd n r))"
proof (cases n)
  case (Fin a)
  note n = this
  show ?thesis
  proof (cases r)
    case (Fin b)
    with n assms fdiv_unit_fin [of a b] show ?thesis by simp
  qed (use n assms in \<open>simp_all add: fsub_def\<close>)
qed (use assms in \<open>cases r; simp add: fsub_def\<close>)+

lemma fdiv_equal_zero:
  assumes "v \<noteq> 0"
  shows "fdiv (fsub (Fin v) (Fin v)) (fadd (Fin v) (Fin v)) = Fin 0"
proof -
  have num: "fsub (Fin v) (Fin v) = Fin 0"
    by (simp add: fsub_def f64_result_zero)
  show ?thesis
  proof (cases "f64_overflows (v + v)")
    case True
    from f64_result_overflow [OF this] num show ?thesis by auto
  next
    case False
    with assms num show ?thesis by (simp add: f64_result_def no_overflow_zero)
  qed
qed

subsection \<open>uint16 bands stay inside the float64 range\<close>

lemma float_ufunc_same_at:
  assumes "\<And>i. i < prod_list s \<Longrightarrow> \<not> raises st (xs ! i) (ys ! i)"
  shows "float_ufunc f raises st s xs s ys =
         Inr \<lparr>shape = s, dat = Float64 (map (\<lambda>i. f (xs ! i) (ys ! i)) [0..<prod_list s])\<rparr>"
proof -
  have "\<not> list_ex (\<lambda>(a, b). raises st a b) (map (\<lambda>i. (xs ! i, ys ! i)) [0..<prod_list s])"
    using assms by (simp add: list_ex_iff)
  then show ?thesis
    by (simp add: float_ufunc_def broadcast2_same comp_def)
qed

lemma u16_real_bound: "real (unat (w :: 16 word)) \<le> 65535"
proof -
  have "unat w < 2 ^ 16" using unsigned_less [of w, where ?'a = nat] by simp
  then have "unat w \<le> 65535" by simp
  then have "real (unat w) \<le> real 65535" by (simp only: of_nat_le_iff)
  then show ?thesis by (simp only: of_nat_numeral)
qed

lemma fsub_of_u16: "fsub (of_u16 y) (of_u16 x) = Fin (real (unat y) - real (unat x))"
proof -
  have "\<bar>real (unat y) + - real (unat x)\<bar> \<le> 65535"
    using u16_real_bound [of y] u16_real_bound [of x]
      of_nat_0_le_iff [of "unat y", where ?'a = real] of_nat_0_le_iff [of "unat x", where ?'a = real]
    by linarith
  moreover have "(65535::real) \<le> 2 ^ 64" by simp
  ultimately have "\<bar>real (unat y) + - real (unat x)\<bar> \<le> 2 ^ 64" by linarith
  from f64_result_small [OF this] show ?thesis
    unfolding of_u16_def fsub_def by (simp only: fneg.simps fadd.simps) simp
qed

lemma sub_of_u16_no_overflow: "\<not> sub_overflow (of_u16 y) (of_u16 x)"
proof -
  have "\<bar>real (unat y) + - real (unat x)\<bar> \<le> 65535"
    using u16_real_bound [of y] u16_real_bound [of x]
      of_nat_0_le_iff [of "unat y", where ?'a = real] of_nat_0_le_iff [of "unat x", where ?'a = real]
    by linarith
  moreover have "(65535::real) \<le> 2 ^ 64" by simp
  ultimately have "\<bar>real (unat y) + - real (unat x)\<bar> \<le> 2 ^ 64" by linarith
  from f64_small_no_overflow [OF this] show ?thesis
    unfolding of_u16_def sub_overflow_def add_overflow_def by (simp only: fneg.simps) simp
qed

lemma tiny_below_u16: "(1::real) / 2 ^ 1022 \<le> 1 / 65535"
proof -
  have "(2::real) ^ 16 \<le> 2 ^ 1022" by (rule power_increasing) simp_all
  moreover have "(65535::real) \<le> 2 ^ 16" by simp
  ultimately have "(65535::real) \<le> 2 ^ 1022" by (rule order_trans [rotated])
  then show ?thesis by (intro divide_left_mono) simp_all
qed

lemma u16_quotient_quiet:
  fixes k :: int and m :: nat
  assumes "\<bar>k\<bar> \<le> 65535" "m \<le> 65535" "m \<noteq> 0"
  shows "\<not> f64_overflows (real_of_int k / real m)" "\<not> f64_underflows (real_of_int k / real m)"
proof -
  define d :: real where "d = real m"
  define a :: real where "a = real_of_int k"
  have d: "1 \<le> d" "d \<le> 65535" using assms(2,3) by (simp_all add: d_def)
  have a: "\<bar>a\<bar> \<le> 65535" using assms(1) unfolding a_def by linarith
  have "\<bar>a / d\<bar> = \<bar>a\<bar> / d" using d by simp
  also have "\<dots> \<le> \<bar>a\<bar> / 1" using d by (intro divide_left_mono) simp_all
  finally have "\<bar>a / d\<bar> \<le> 65535" using a by simp
  moreover have "(65535::real) \<le> 2 ^ 64" by simp
  ultimately have "\<bar>a / d\<bar> \<le> 2 ^ 64" by linarith
  then show "\<not> f64_overflows (real_of_int k / real m)"
    unfolding a_def d_def by (rule f64_small_no_overflow)
  have "1 / 2 ^ 1022 \<le> \<bar>a / d\<bar>" if "a / d \<noteq> 0"
  proof -
    from that d have "k \<noteq> 0" by (auto simp: a_def)
    then have "1 \<le> \<bar>k\<bar>" by linarith
    then have "1 \<le> \<bar>a\<bar>" unfolding a_def by linarith
    then have "1 / d \<le> \<bar>a\<bar> / d" using d by (intro divide_right_mono) simp_all
    moreover have "1 / 65535 \<le> 1 / d" using d by (intro divide_left_mono) simp_all
    moreover have "\<bar>a / d\<bar> = \<bar>a\<bar> / d" using d by simp
    ultimately show ?thesis using tiny_below_u16 by linarith
  qed
  then show "\<not> f64_underflows (real_of_int k / real m)"
    unfolding f64_underflows_def a_def d_def by fastforce
qed

lemma div_of_u16_quiet:
  assumes "invalid st = Ignore" "divide st = Ignore"
  shows "\<not> div_raises st (fsub (of_u16 y) (of_u16 x)) (of_u16 w)"
proof -
  define k :: int where "k = int (unat y) - int (unat x)"
  define m :: nat where "m = unat w"
  have num: "fsub (of_u16 y) (of_u16 x) = Fin (real_of_int k)"
    by (simp add: fsub_of_u16 k_def)
  have den: "of_u16 w = Fin (real m)"
    by (simp add: of_u16_def m_def)
  have "unat y \<le> 65535" "unat x \<le> 65535" "m \<le> 65535"
    using unsigned_less [of y, where ?'a = nat] unsigned_less [of x, where ?'a = nat]
      unsigned_less [of w, where ?'a = nat]
    by (simp_all add: m_def)
  then have k: "\<bar>k\<bar> \<le> 65535" and m: "m \<le> 65535" unfolding k_def by linarith+
  have "\<not> div_overflow (Fin (real_of_int k)) (Fin (real m))"
    using u16_quotient_quiet(1) [OF k m] by (auto simp: div_overflow_def)
  moreover have "\<not> div_underflow (Fin (real_of_int k)) (Fin (real m))"
    using u16_quotient_quiet(2) [OF k m] by (auto simp: div_underflow_def)
  ultimately show ?thesis
    using assms by (simp add: div_raises_def num den)
qed

lemma ndvi_uint16_same_shape:
  assumes "shape b3 = shape b4" "wf_array b3" "wf_array b4"
    and "dat b3 = UInt16 xs" "dat b4 = UInt16 ys"
  shows "snd (ndvi st b3 b4) =
         Inr \<lparr>shape = shape b3, dat = Float64 (map (ndvi_at b3 b4) [0..<prod_list (shape b3)])\<rparr>"
proof -
  let ?st = "seterr Ignore Ignore st"
  let ?n = "prod_list (shape b3)"
  let ?nums = "map (\<lambda>i. fsub (of_u16 (ys ! i)) (of_u16 (xs ! i))) [0..<?n]"
  from assms have len: "length xs = ?n" "length ys = ?n"
    by (simp_all add: wf_array_def)
  have st: "invalid ?st = Ignore" "divide ?st = Ignore"
    by (simp_all add: seterr_fields)
  have "\<not> sub_raises ?st (map of_u16 ys ! i) (map of_u16 xs ! i)" if "i < ?n" for i
    using that len sub_of_u16_no_overflow [of "ys ! i" "xs ! i"]
    by (simp add: sub_raises_def st)
  then have "float_ufunc fsub sub_raises ?st (shape b3) (map of_u16 ys) (shape b3) (map of_u16 xs)
        = Inr \<lparr>shape = shape b3,
               dat = Float64 (map (\<lambda>i. fsub (map of_u16 ys ! i) (map of_u16 xs ! i)) [0..<?n])\<rparr>"
    by (rule float_ufunc_same_at)
  moreover have "map (\<lambda>i. fsub (map of_u16 ys ! i) (map of_u16 xs ! i)) [0..<?n] = ?nums"
    using len by simp
  ultimately have num: "np_subtract ?st (astype_float b4) (astype_float b3)
        = Inr \<lparr>shape = shape b3, dat = Float64 ?nums\<rparr>"
    using assms(1,4,5) by (simp add: np_subtract_def astype_float_def)
  let ?sums = "map (\<lambda>i. ys ! i + xs ! i) [0..<?n]"
  have den: "np_add ?st b4 b3 = Inr \<lparr>shape = shape b3, dat = UInt16 ?sums\<rparr>"
    using assms(1,4,5) by (simp add: np_add_def broadcast2_same)
  have "\<not> div_raises ?st (?nums ! i) (map of_u16 ?sums ! i)" if "i < ?n" for i
    using that div_of_u16_quiet [OF st, of "ys ! i" "xs ! i" "ys ! i + xs ! i"] by simp
  then have "float_ufunc fdiv div_raises ?st (shape b3) ?nums (shape b3) (map of_u16 ?sums)
        = Inr \<lparr>shape = shape b3,
               dat = Float64 (map (\<lambda>i. fdiv (?nums ! i) (map of_u16 ?sums ! i)) [0..<?n])\<rparr>"
    by (rule float_ufunc_same_at)
  moreover have "map (\<lambda>i. fdiv (?nums ! i) (map of_u16 ?sums ! i)) [0..<?n]
        = map (ndvi_at b3 b4) [0..<?n]"
    using assms(4,5) len by (simp add: ndvi_at_def sum_at_def)
  ultimately have "np_true_divide ?st \<lparr>shape = shape b3, dat = Float64 ?nums\<rparr>
                     \<lparr>shape = shape b3, dat = UInt16 ?sums\<rparr>
        = Inr \<lparr>shape = shape b3, dat = Float64 (map (ndvi_at b3 b4) [0..<?n])\<rparr>"
    by (simp add: np_true_divide_def)
  with num den show ?thesis
    by (simp add: ndvi_def Let_def)
qed

lemma ndvi_same_shape_quiet:
  assumes "shape b3 = shape b4" "fp_quiet st b3 b4"
  shows "snd (ndvi st b3 b4) =
         Inr \<lparr>shape = shape b3, dat = Float64 (map (ndvi_at b3 b4) [0..<prod_list (shape b3)])\<rparr>"
proof (cases "over st \<noteq> Raise \<and> under st \<noteq> Raise")
  case True
  then show ?thesis using ndvi_same_shape [OF assms(1)] by blast
next
  case False
  with assms(2) have u: "is_uint16 (dat b3)" "is_uint16 (dat b4)" "wf_array b3" "wf_array b4"
    by (simp_all add: fp_quiet_def)
  from u(1) obtain xs where "dat b3 = UInt16 xs" by (cases "dat b3") simp_all
  moreover from u(2) obtain ys where "dat b4 = UInt16 ys" by (cases "dat b4") simp_all
  ultimately show ?thesis
    using ndvi_uint16_same_shape [OF assms(1) u(3,4)] by blast
qed

lemma default_fp_quiet: "fp_quiet np_default_errstate b3 b4"
  by (simp add: fp_quiet_def default_quiet)

subsection \<open>The formula and the 16-bit sum\<close>

text \<open>
  The instance the specification tests: on two 1x1 bands holding 3 and 5, of either
  dtype, the cell returns 0.25.
\<close>

lemma ndvi_red3_nir5:
  assumes "dat b3 = UInt16 [3] \<or> dat b3 = Float64 [Fin 3]"
    and "dat b4 = UInt16 [5] \<or> dat b4 = Float64 [Fin 5]"
    and "shape b3 = [1, 1]" "shape b4 = [1, 1]"
    and "over st \<noteq> Raise" "under st \<noteq> Raise"
  shows "snd (ndvi st b3 b4) = Inr \<lparr>shape = [1, 1], dat = Float64 [Fin (1 / 4)]\<rparr>"
  using assms
  by (auto simp: ndvi_same_shape ndvi_at_def sum_at_def of_u16_def fsub_def f64_result_small)

text \<open>
  C1. The claim: each element of the result is \<open>(nir - red) / (nir + red)\<close>. On the
  uint16 bands red = 30000, nir = 40000 the formula gives 1/7, and the cell returns
  625/279 (about 2.24): \<open>b4 + b3\<close> is added in 16 bits, 70000 wraps to 4464, and the
  float difference 10000 is divided by 4464.
\<close>

theorem ndvi_formula_fails_on_wrapped_sum:
  "snd (ndvi np_default_errstate \<lparr>shape = [1, 1], dat = UInt16 [30000]\<rparr>
          \<lparr>shape = [1, 1], dat = UInt16 [40000]\<rparr>)
     = Inr \<lparr>shape = [1, 1], dat = Float64 [Fin (625 / 279)]\<rparr> \<and>
   ndvi_formula (of_u16 30000) (of_u16 40000) = Fin (1 / 7)"
  by (simp add: ndvi_same_shape default_quiet ndvi_at_def sum_at_def of_u16_def fsub_def
      ndvi_formula_def f64_result_small)

text \<open>
  C2. The claim: every input element is promoted to floating point before any arithmetic,
  so no integer overflow in \<open>nir + red\<close> reaches the result. The cell promotes the two
  operands of the difference and not the operands of the sum: on the uint16 bands
  red = 20000, nir = 50000 the sum \<open>b4 + b3\<close> is the uint16 array holding 4464, and
  the result is 30000 / 4464 = 625/93 where the promoted formula gives 3/7.
\<close>

theorem ndvi_sum_not_promoted:
  "np_add (seterr Ignore Ignore np_default_errstate) \<lparr>shape = [1, 1], dat = UInt16 [50000]\<rparr>
          \<lparr>shape = [1, 1], dat = UInt16 [20000]\<rparr>
     = Inr \<lparr>shape = [1, 1], dat = UInt16 [4464]\<rparr> \<and>
   snd (ndvi np_default_errstate \<lparr>shape = [1, 1], dat = UInt16 [20000]\<rparr>
          \<lparr>shape = [1, 1], dat = UInt16 [50000]\<rparr>)
     = Inr \<lparr>shape = [1, 1], dat = Float64 [Fin (625 / 93)]\<rparr> \<and>
   ndvi_formula (of_u16 20000) (of_u16 50000) = Fin (3 / 7)"
  by (simp add: np_add_def broadcast2_same ndvi_same_shape default_quiet ndvi_at_def sum_at_def
      of_u16_def fsub_def ndvi_formula_def f64_result_small)

subsection \<open>Division by zero\<close>

text \<open>
  C3. For two well-formed bands of equal shape and a position where \<open>red + nir\<close> is
  zero, the cell raises nothing and the result there is not finite, whatever \<open>divide\<close>
  and \<open>invalid\<close> were before. The session's \<open>over\<close> and \<open>under\<close> are not on
  \<open>raise\<close>, or the bands are uint16 (\<open>fp_quiet\<close>). The sum is zero either as the cell computes it (\<open>sum_at\<close>, which
  includes a 16-bit sum that wrapped to zero) or as the sum of the promoted samples.
\<close>

theorem ndvi_zero_sum_nonfinite:
  assumes "shape b3 = shape b4" "wf_array b3" "wf_array b4" "i < prod_list (shape b3)"
    and "fp_quiet st b3 b4"
    and "sum_at b3 b4 i = Fin 0 \<or> fadd (to_floats (dat b4) ! i) (to_floats (dat b3) ! i) = Fin 0"
  shows "\<exists>out. snd (ndvi st b3 b4) = Inr out \<and> \<not> isfinite (to_floats (dat out) ! i)"
proof -
  from assms(6) exact_zero_sum_at [OF assms(1-4)] have "sum_at b3 b4 i = Fin 0"
    by blast
  then have "\<not> isfinite (ndvi_at b3 b4 i)"
    by (simp add: ndvi_at_def fdiv_zero_nonfinite)
  with assms(4) ndvi_same_shape_quiet [OF assms(1,5)] show ?thesis
    by simp
qed

text \<open>C3 at two uint16 bands that are zero at position 0: the result there is not finite.\<close>

theorem ndvi_zero_sum_nonfinite_witness:
  "shape \<lparr>shape = [1, 2], dat = UInt16 [0, 32768]\<rparr> = shape \<lparr>shape = [1, 2], dat = UInt16 [0, 32768]\<rparr> \<and>
   wf_array \<lparr>shape = [1, 2], dat = UInt16 [0, 32768]\<rparr> \<and>
   0 < prod_list (shape \<lparr>shape = [1, 2], dat = UInt16 [0, 32768]\<rparr>) \<and>
   fp_quiet np_default_errstate \<lparr>shape = [1, 2], dat = UInt16 [0, 32768]\<rparr>
     \<lparr>shape = [1, 2], dat = UInt16 [0, 32768]\<rparr> \<and>
   fadd (to_floats (dat \<lparr>shape = [1, 2], dat = UInt16 [0, 32768]\<rparr>) ! 0)
        (to_floats (dat \<lparr>shape = [1, 2], dat = UInt16 [0, 32768]\<rparr>) ! 0) = Fin 0 \<and>
   (\<exists>out. snd (ndvi np_default_errstate \<lparr>shape = [1, 2], dat = UInt16 [0, 32768]\<rparr>
                  \<lparr>shape = [1, 2], dat = UInt16 [0, 32768]\<rparr>) = Inr out \<and>
          \<not> isfinite (to_floats (dat out) ! 0))"
proof -
  let ?a = "\<lparr>shape = [1, 2], dat = UInt16 [0, 32768]\<rparr>"
  have h1: "shape ?a = shape ?a" by simp
  have h2: "wf_array ?a" by (simp add: wf_array_def)
  have h3: "0 < prod_list (shape ?a)" by simp
  have h4: "fadd (to_floats (dat ?a) ! 0) (to_floats (dat ?a) ! 0) = Fin 0"
    by (simp add: of_u16_def f64_result_zero)
  have q: "fp_quiet np_default_errstate ?a ?a" by (rule default_fp_quiet)
  from ndvi_zero_sum_nonfinite [OF h1 h2 h2 h3 q disjI2 [OF h4]] h1 h2 h3 h4 q
  show ?thesis by blast
qed

subsection \<open>Range of the result\<close>

text \<open>
  C4, as the code has it. For two bands of equal shape, with the session's \<open>over\<close>
  and \<open>under\<close> not on \<open>raise\<close> or the bands uint16 (\<open>fp_quiet\<close>), the result is a float64 array of that shape,
  holding as many elements as the shape says; at every position where neither sample is
  negative and the sum \<open>b4 + b3\<close> is the sum of the promoted samples (it did not wrap
  in 16 bits), the result is in [-1, 1] or not finite.
\<close>

theorem ndvi_range_nonneg:
  assumes "shape b3 = shape b4" "fp_quiet st b3 b4"
  shows "\<exists>fs. snd (ndvi st b3 b4) = Inr \<lparr>shape = shape b3, dat = Float64 fs\<rparr> \<and>
              length fs = prod_list (shape b3) \<and>
              (\<forall>i < prod_list (shape b3).
                 \<not> is_negative (to_floats (dat b3) ! i) \<and>
                 \<not> is_negative (to_floats (dat b4) ! i) \<and>
                 sum_at b3 b4 i = fadd (to_floats (dat b4) ! i) (to_floats (dat b3) ! i) \<longrightarrow>
                 unit_or_nonfinite (fs ! i))"
proof -
  let ?fs = "map (ndvi_at b3 b4) [0..<prod_list (shape b3)]"
  have "unit_or_nonfinite (?fs ! i)"
    if "i < prod_list (shape b3)" "\<not> is_negative (to_floats (dat b3) ! i)"
      "\<not> is_negative (to_floats (dat b4) ! i)"
      "sum_at b3 b4 i = fadd (to_floats (dat b4) ! i) (to_floats (dat b3) ! i)" for i
    using fdiv_unit [OF that(2,3)] that(1,4) by (simp add: ndvi_at_def)
  with ndvi_same_shape_quiet [OF assms] show ?thesis
    by (intro exI [of _ ?fs]) simp
qed

text \<open>An instance of C4 in this form: the uint16 bands red = 3, nir = 5.\<close>

theorem ndvi_range_nonneg_witness:
  "shape \<lparr>shape = [1, 1], dat = UInt16 [3]\<rparr> = shape \<lparr>shape = [1, 1], dat = UInt16 [5]\<rparr> \<and>
   fp_quiet np_default_errstate \<lparr>shape = [1, 1], dat = UInt16 [3]\<rparr>
     \<lparr>shape = [1, 1], dat = UInt16 [5]\<rparr> \<and>
   0 < prod_list (shape \<lparr>shape = [1, 1], dat = UInt16 [3]\<rparr>) \<and>
   \<not> is_negative (to_floats (dat \<lparr>shape = [1, 1], dat = UInt16 [3]\<rparr>) ! 0) \<and>
   \<not> is_negative (to_floats (dat \<lparr>shape = [1, 1], dat = UInt16 [5]\<rparr>) ! 0) \<and>
   sum_at \<lparr>shape = [1, 1], dat = UInt16 [3]\<rparr> \<lparr>shape = [1, 1], dat = UInt16 [5]\<rparr> 0
     = fadd (to_floats (dat \<lparr>shape = [1, 1], dat = UInt16 [5]\<rparr>) ! 0)
            (to_floats (dat \<lparr>shape = [1, 1], dat = UInt16 [3]\<rparr>) ! 0) \<and>
   (\<exists>fs. snd (ndvi np_default_errstate \<lparr>shape = [1, 1], dat = UInt16 [3]\<rparr>
                 \<lparr>shape = [1, 1], dat = UInt16 [5]\<rparr>)
          = Inr \<lparr>shape = shape \<lparr>shape = [1, 1], dat = UInt16 [3]\<rparr>, dat = Float64 fs\<rparr> \<and>
         length fs = prod_list (shape \<lparr>shape = [1, 1], dat = UInt16 [3]\<rparr>) \<and>
         unit_or_nonfinite (fs ! 0))"
proof -
  let ?r = "\<lparr>shape = [1, 1], dat = UInt16 [3]\<rparr>"
  let ?n = "\<lparr>shape = [1, 1], dat = UInt16 [5]\<rparr>"
  have h1: "shape ?r = shape ?n" by simp
  have h2: "0 < prod_list (shape ?r)" by simp
  have h3: "\<not> is_negative (to_floats (dat ?r) ! 0)" by (simp add: of_u16_def)
  have h4: "\<not> is_negative (to_floats (dat ?n) ! 0)" by (simp add: of_u16_def)
  have h5: "sum_at ?r ?n 0 = fadd (to_floats (dat ?n) ! 0) (to_floats (dat ?r) ! 0)"
    by (simp add: sum_at_def of_u16_def f64_result_small)
  have q: "fp_quiet np_default_errstate ?r ?n" by (rule default_fp_quiet)
  from ndvi_range_nonneg [OF h1 q] obtain fs where
    fs: "snd (ndvi np_default_errstate ?r ?n) = Inr \<lparr>shape = shape ?r, dat = Float64 fs\<rparr>"
      "length fs = prod_list (shape ?r)"
      "\<forall>i < prod_list (shape ?r).
         \<not> is_negative (to_floats (dat ?r) ! i) \<and> \<not> is_negative (to_floats (dat ?n) ! i) \<and>
         sum_at ?r ?n i = fadd (to_floats (dat ?n) ! i) (to_floats (dat ?r) ! i) \<longrightarrow>
         unit_or_nonfinite (fs ! i)"
    by blast
  from fs(3) h2 h3 h4 h5 have "unit_or_nonfinite (fs ! 0)" by blast
  with fs(1,2) h1 h2 h3 h4 h5 q show ?thesis by blast
qed

text \<open>
  C4 as stated fails: on the float64 bands red = -1, nir = 3 the result is the finite
  value 2.
\<close>

theorem ndvi_range_counterexample:
  "snd (ndvi np_default_errstate \<lparr>shape = [1, 1], dat = Float64 [Fin (- 1)]\<rparr>
          \<lparr>shape = [1, 1], dat = Float64 [Fin 3]\<rparr>)
     = Inr \<lparr>shape = [1, 1], dat = Float64 [Fin 2]\<rparr> \<and>
   \<not> unit_or_nonfinite (Fin 2)"
  by (simp add: ndvi_same_shape default_quiet ndvi_at_def sum_at_def fsub_def f64_result_small)

subsection \<open>Shape of the result\<close>

text \<open>
  C5. For two bands of equal shape, with the session's \<open>over\<close> and \<open>under\<close> not on
  \<open>raise\<close> or the bands uint16 (\<open>fp_quiet\<close>), the cell returns an array; the array has the shape of the red band and
  holds as many elements as that shape says.
\<close>

theorem ndvi_keeps_shape:
  assumes "shape b3 = shape b4" "fp_quiet st b3 b4"
  shows "\<exists>out. snd (ndvi st b3 b4) = Inr out \<and> shape out = shape b3 \<and> wf_array out"
  using ndvi_same_shape_quiet [OF assms] by (simp add: wf_array_def)

text \<open>C5 at two 2x3 bands.\<close>

theorem ndvi_keeps_shape_witness:
  "shape \<lparr>shape = [2, 3], dat = UInt16 [1, 2, 3, 4, 5, 6]\<rparr>
     = shape \<lparr>shape = [2, 3], dat = UInt16 [6, 5, 4, 3, 2, 1]\<rparr> \<and>
   fp_quiet np_default_errstate \<lparr>shape = [2, 3], dat = UInt16 [1, 2, 3, 4, 5, 6]\<rparr>
     \<lparr>shape = [2, 3], dat = UInt16 [6, 5, 4, 3, 2, 1]\<rparr> \<and>
   (\<exists>out. snd (ndvi np_default_errstate
                 \<lparr>shape = [2, 3], dat = UInt16 [1, 2, 3, 4, 5, 6]\<rparr>
                 \<lparr>shape = [2, 3], dat = UInt16 [6, 5, 4, 3, 2, 1]\<rparr>) = Inr out \<and>
          shape out = [2, 3] \<and> wf_array out)"
proof -
  have h: "shape \<lparr>shape = [2, 3], dat = UInt16 [1, 2, 3, 4, 5, 6]\<rparr>
         = shape \<lparr>shape = [2, 3], dat = UInt16 [6, 5, 4, 3, 2, 1]\<rparr>"
    by simp
  have q: "fp_quiet np_default_errstate \<lparr>shape = [2, 3], dat = UInt16 [1, 2, 3, 4, 5, 6]\<rparr>
             \<lparr>shape = [2, 3], dat = UInt16 [6, 5, 4, 3, 2, 1]\<rparr>"
    by (rule default_fp_quiet)
  from ndvi_keeps_shape [OF h q] q show ?thesis by simp
qed

subsection \<open>Equal bands\<close>

text \<open>
  C6, as the code has it. For two bands of equal shape, with the session's \<open>over\<close>
  and \<open>under\<close> not on \<open>raise\<close> or the bands uint16 (\<open>fp_quiet\<close>), and a position where both samples are the same
  finite nonzero number and the sum \<open>b4 + b3\<close> is the sum of the promoted samples (it
  did not wrap in 16 bits), the result there is 0.
\<close>

theorem ndvi_equal_bands_zero:
  assumes "shape b3 = shape b4" "i < prod_list (shape b3)"
    and "fp_quiet st b3 b4"
    and "to_floats (dat b3) ! i = Fin v" "to_floats (dat b4) ! i = Fin v" "v \<noteq> 0"
    and "sum_at b3 b4 i = fadd (to_floats (dat b4) ! i) (to_floats (dat b3) ! i)"
  shows "\<exists>fs. snd (ndvi st b3 b4) = Inr \<lparr>shape = shape b3, dat = Float64 fs\<rparr> \<and> fs ! i = Fin 0"
proof -
  have "ndvi_at b3 b4 i = Fin 0"
    using assms(4,5,7) fdiv_equal_zero [OF assms(6)] by (simp add: ndvi_at_def)
  with assms(2) ndvi_same_shape_quiet [OF assms(1,3)] show ?thesis
    by simp
qed

text \<open>An instance of C6 in this form: two uint16 bands that both hold 7.\<close>

theorem ndvi_equal_bands_zero_witness:
  "shape \<lparr>shape = [1, 1], dat = UInt16 [7]\<rparr> = shape \<lparr>shape = [1, 1], dat = UInt16 [7]\<rparr> \<and>
   0 < prod_list (shape \<lparr>shape = [1, 1], dat = UInt16 [7]\<rparr>) \<and>
   fp_quiet np_default_errstate \<lparr>shape = [1, 1], dat = UInt16 [7]\<rparr>
     \<lparr>shape = [1, 1], dat = UInt16 [7]\<rparr> \<and>
   to_floats (dat \<lparr>shape = [1, 1], dat = UInt16 [7]\<rparr>) ! 0 = Fin 7 \<and> (7::real) \<noteq> 0 \<and>
   sum_at \<lparr>shape = [1, 1], dat = UInt16 [7]\<rparr> \<lparr>shape = [1, 1], dat = UInt16 [7]\<rparr> 0
     = fadd (to_floats (dat \<lparr>shape = [1, 1], dat = UInt16 [7]\<rparr>) ! 0)
            (to_floats (dat \<lparr>shape = [1, 1], dat = UInt16 [7]\<rparr>) ! 0) \<and>
   (\<exists>fs. snd (ndvi np_default_errstate \<lparr>shape = [1, 1], dat = UInt16 [7]\<rparr>
                 \<lparr>shape = [1, 1], dat = UInt16 [7]\<rparr>)
          = Inr \<lparr>shape = shape \<lparr>shape = [1, 1], dat = UInt16 [7]\<rparr>, dat = Float64 fs\<rparr> \<and>
         fs ! 0 = Fin 0)"
proof -
  let ?a = "\<lparr>shape = [1, 1], dat = UInt16 [7]\<rparr>"
  have h1: "shape ?a = shape ?a" by simp
  have h2: "0 < prod_list (shape ?a)" by simp
  have h3: "to_floats (dat ?a) ! 0 = Fin 7" by (simp add: of_u16_def)
  have h4: "(7::real) \<noteq> 0" by simp
  have h5: "sum_at ?a ?a 0 = fadd (to_floats (dat ?a) ! 0) (to_floats (dat ?a) ! 0)"
    by (simp add: sum_at_def of_u16_def f64_result_small)
  have q: "fp_quiet np_default_errstate ?a ?a" by (rule default_fp_quiet)
  from ndvi_equal_bands_zero [OF h1 h2 q h3 h3 h4 h5] h1 h2 h3 h4 h5 q
  show ?thesis by blast
qed

text \<open>
  C6 as stated fails: two float64 bands that both hold plus infinity are equal and
  nonzero, and the result is not-a-number (infinity minus infinity), not 0.
\<close>

theorem ndvi_equal_bands_counterexample:
  "dat \<lparr>shape = [1, 1], dat = Float64 [PInf]\<rparr> = Float64 [PInf] \<and> PInf \<noteq> Fin 0 \<and>
   snd (ndvi np_default_errstate \<lparr>shape = [1, 1], dat = Float64 [PInf]\<rparr>
          \<lparr>shape = [1, 1], dat = Float64 [PInf]\<rparr>)
     = Inr \<lparr>shape = [1, 1], dat = Float64 [NaN]\<rparr> \<and>
   NaN \<noteq> Fin 0"
  by (simp add: ndvi_same_shape default_quiet ndvi_at_def sum_at_def fsub_def)

subsection \<open>Bands of different shapes\<close>

text \<open>
  C7, as the code has it. The cell fails with numpy's \<open>ValueError\<close> (the
  specification's ShapeMismatch) when the two shapes cannot be broadcast together. When
  they can, equal or not, it never fails with \<open>ValueError\<close>: it returns a float64 array
  of the broadcast shape or raises \<open>FloatingPointError\<close>, and with the session's
  \<open>over\<close> and \<open>under\<close> not on \<open>raise\<close> it returns the array, whatever the
  samples are.
\<close>

theorem ndvi_shape_errors:
  "(broadcast_shapes (shape b4) (shape b3) = None \<longrightarrow> snd (ndvi st b3 b4) = Inl ValueError) \<and>
   (\<forall>s. broadcast_shapes (shape b4) (shape b3) = Some s \<longrightarrow>
        (snd (ndvi st b3 b4) = Inl FloatingPointError \<or>
         (\<exists>fs. snd (ndvi st b3 b4) = Inr \<lparr>shape = s, dat = Float64 fs\<rparr>)) \<and>
        (over st \<noteq> Raise \<and> under st \<noteq> Raise \<longrightarrow>
         (\<exists>fs. snd (ndvi st b3 b4) = Inr \<lparr>shape = s, dat = Float64 fs\<rparr>)))"
proof (intro conjI allI impI)
  assume "broadcast_shapes (shape b4) (shape b3) = None"
  then show "snd (ndvi st b3 b4) = Inl ValueError"
    by (simp add: ndvi_def Let_def np_subtract_def astype_float_def float_ufunc_None)
next
  fix s
  assume s: "broadcast_shapes (shape b4) (shape b3) = Some s"
  let ?st = "seterr Ignore Ignore st"
  let ?sub = "np_subtract ?st (astype_float b4) (astype_float b3)"
  have sub_eq: "?sub = float_ufunc fsub sub_raises ?st (shape b4) (to_floats (dat b4))
                         (shape b3) (to_floats (dat b3))"
    by (simp add: np_subtract_def astype_float_def)
  from float_ufunc_no_ValueError [OF s, of fsub sub_raises ?st "to_floats (dat b4)" "to_floats (dat b3)"]
  have sub: "?sub = Inl FloatingPointError \<or> (\<exists>ns. ?sub = Inr \<lparr>shape = s, dat = Float64 ns\<rparr>)"
    by (simp only: sub_eq)
  show "snd (ndvi st b3 b4) = Inl FloatingPointError \<or>
        (\<exists>fs. snd (ndvi st b3 b4) = Inr \<lparr>shape = s, dat = Float64 fs\<rparr>)"
  proof (cases "?sub = Inl FloatingPointError")
    case True
    then show ?thesis by (simp add: ndvi_def Let_def)
  next
    case False
    with sub obtain ns where num: "?sub = Inr \<lparr>shape = s, dat = Float64 ns\<rparr>" by blast
    show ?thesis
    proof (cases "np_add ?st b4 b3 = Inl FloatingPointError")
      case True
      with num show ?thesis by (simp add: ndvi_def Let_def)
    next
      case False
      with np_add_Some [OF s, of ?st] obtain den where
        den: "np_add ?st b4 b3 = Inr den" "shape den = s" by blast
      from float_ufunc_no_ValueError [OF broadcast_shapes_same, of fdiv div_raises ?st s ns
          "to_floats (dat den)"] den(2)
      have "np_true_divide ?st \<lparr>shape = s, dat = Float64 ns\<rparr> den = Inl FloatingPointError \<or>
            (\<exists>fs. np_true_divide ?st \<lparr>shape = s, dat = Float64 ns\<rparr> den
                   = Inr \<lparr>shape = s, dat = Float64 fs\<rparr>)"
        by (simp add: np_true_divide_def)
      with num den(1) show ?thesis by (simp add: ndvi_def Let_def)
    qed
  qed
next
  fix s
  assume s: "broadcast_shapes (shape b4) (shape b3) = Some s"
    and q: "over st \<noteq> Raise \<and> under st \<noteq> Raise"
  let ?st = "seterr Ignore Ignore st"
  note quiet = no_raise_ignored [OF conjunct1 [OF q] conjunct2 [OF q]]
  have "\<exists>ns. float_ufunc fsub sub_raises ?st (shape b4) (to_floats (dat b4))
              (shape b3) (to_floats (dat b3)) = Inr \<lparr>shape = s, dat = Float64 ns\<rparr>"
    by (rule float_ufunc_Some [OF s]) (rule quiet(1))
  then obtain ns where
    num: "np_subtract ?st (astype_float b4) (astype_float b3) = Inr \<lparr>shape = s, dat = Float64 ns\<rparr>"
    by (auto simp: np_subtract_def astype_float_def)
  from np_add_Some_quiet [OF s conjunct1 [OF q] conjunct2 [OF q]] obtain den where
    den: "np_add ?st b4 b3 = Inr den" "shape den = s" by blast
  have "\<exists>fs. np_true_divide ?st \<lparr>shape = s, dat = Float64 ns\<rparr> den = Inr \<lparr>shape = s, dat = Float64 fs\<rparr>"
    using den(2) quiet(3) by (simp add: np_true_divide_def float_ufunc_same)
  with num den(1) show "\<exists>fs. snd (ndvi st b3 b4) = Inr \<lparr>shape = s, dat = Float64 fs\<rparr>"
    by (simp add: ndvi_def Let_def)
qed

text \<open>
  Instances of C7 in this form: a 1x3 band against a 2x2 band (no common shape,
  \<open>ValueError\<close>) and a 1x1 band against a 2x2 band (broadcast to 2x2).
\<close>

theorem ndvi_shape_errors_witness:
  "broadcast_shapes (shape \<lparr>shape = [2, 2], dat = UInt16 [5, 5, 5, 5]\<rparr>)
                    (shape \<lparr>shape = [1, 3], dat = UInt16 [3, 3, 3]\<rparr>) = None \<and>
   snd (ndvi np_default_errstate \<lparr>shape = [1, 3], dat = UInt16 [3, 3, 3]\<rparr>
          \<lparr>shape = [2, 2], dat = UInt16 [5, 5, 5, 5]\<rparr>) = Inl ValueError \<and>
   broadcast_shapes (shape \<lparr>shape = [2, 2], dat = UInt16 [5, 5, 5, 5]\<rparr>)
                    (shape \<lparr>shape = [1, 1], dat = UInt16 [3]\<rparr>) = Some [2, 2] \<and>
   over np_default_errstate \<noteq> Raise \<and> under np_default_errstate \<noteq> Raise \<and>
   (\<exists>fs. snd (ndvi np_default_errstate \<lparr>shape = [1, 1], dat = UInt16 [3]\<rparr>
                 \<lparr>shape = [2, 2], dat = UInt16 [5, 5, 5, 5]\<rparr>)
          = Inr \<lparr>shape = [2, 2], dat = Float64 fs\<rparr>)"
proof -
  let ?n = "\<lparr>shape = [2, 2], dat = UInt16 [5, 5, 5, 5]\<rparr>"
  let ?bad = "\<lparr>shape = [1, 3], dat = UInt16 [3, 3, 3]\<rparr>"
  let ?one = "\<lparr>shape = [1, 1], dat = UInt16 [3]\<rparr>"
  have h1: "broadcast_shapes (shape ?n) (shape ?bad) = None"
    by (simp add: broadcast_shapes_def)
  have h2: "broadcast_shapes (shape ?n) (shape ?one) = Some [2, 2]"
    by (simp add: broadcast_shapes_def)
  note q = default_quiet
  from ndvi_shape_errors [of ?n ?bad np_default_errstate] h1
  have c1: "snd (ndvi np_default_errstate ?bad ?n) = Inl ValueError" by blast
  from ndvi_shape_errors [of ?n ?one np_default_errstate] h2 q
  have c2: "\<exists>fs. snd (ndvi np_default_errstate ?one ?n) = Inr \<lparr>shape = [2, 2], dat = Float64 fs\<rparr>"
    by blast
  from h1 c1 h2 c2 q show ?thesis by blast
qed

text \<open>
  C7 as stated fails: a 1x1 red band and a 2x2 near-infrared band have different shapes,
  and the cell returns the 2x2 result instead of failing.
\<close>

theorem ndvi_broadcast_counterexample:
  "shape \<lparr>shape = [1, 1], dat = UInt16 [3]\<rparr> \<noteq> shape \<lparr>shape = [2, 2], dat = UInt16 [5, 5, 5, 5]\<rparr> \<and>
   snd (ndvi np_default_errstate \<lparr>shape = [1, 1], dat = UInt16 [3]\<rparr>
          \<lparr>shape = [2, 2], dat = UInt16 [5, 5, 5, 5]\<rparr>)
     = Inr \<lparr>shape = [2, 2], dat = Float64 [Fin (1/4), Fin (1/4), Fin (1/4), Fin (1/4)]\<rparr>"
proof -
  have four: "[0..<4] = [0, 1, 2, 3]" by (simp add: upt_rec)
  have bs: "broadcast_shapes [2, 2] [Suc 0, Suc 0] = Some [2, 2]"
    by (simp add: broadcast_shapes_def)
  show ?thesis
    by (simp add: ndvi_def Let_def np_subtract_def np_add_def np_true_divide_def astype_float_def
        float_ufunc_def broadcast2_def bs broadcast_shapes_same four seterr_def
        np_default_errstate_def sub_raises_def add_raises_def div_raises_def of_u16_def fsub_def
        f64_result_small)
qed

subsection \<open>Overflow under \<open>raise\<close>\<close>

text \<open>
  The cell does not touch \<open>over\<close>. In a session that had set it to \<open>raise\<close>, two
  equal float64 bands holding 0 and \<open>2^1023\<close> make the sum \<open>b4 + b3\<close> overflow and
  the cell raise \<open>FloatingPointError\<close>.
\<close>

lemma double_overflows: "f64_overflows (2 ^ 1023 + 2 ^ 1023)"
proof -
  define a :: real where "a = 2 ^ 1023"
  define b :: real where "b = 2 ^ 1024"
  define c :: real where "c = 2 ^ 970"
  have "b = 2 * a" unfolding a_def b_def
    by (simp only: power_Suc [symmetric]) simp
  moreover have "0 < a" unfolding a_def by (rule zero_less_power) simp
  moreover have "0 < c" unfolding c_def by (rule zero_less_power) simp
  ultimately have "b - c \<le> \<bar>a + a\<bar>" by linarith
  then show ?thesis by (simp only: a_def b_def c_def f64_overflows_def)
qed

lemma ndvi_raises_on_overflow:
  assumes "f64_overflows (a + a)"
  shows "snd (ndvi (np_default_errstate\<lparr>over := Raise\<rparr>)
            \<lparr>shape = [2], dat = Float64 [Fin 0, Fin a]\<rparr>
            \<lparr>shape = [2], dat = Float64 [Fin 0, Fin a]\<rparr>) = Inl FloatingPointError"
proof -
  let ?st = "seterr Ignore Ignore (np_default_errstate\<lparr>over := Raise\<rparr>)"
  let ?b = "\<lparr>shape = [2], dat = Float64 [Fin 0, Fin a]\<rparr>"
  have st: "invalid ?st = Ignore" "over ?st = Raise"
    by (simp_all add: seterr_def)
  have quiet: "\<not> sub_raises ?st (Fin x) (Fin x)" for x
    using no_overflow_zero by (simp add: sub_raises_def st sub_overflow_def add_overflow_def)
  have loud: "add_raises ?st (Fin a) (Fin a)"
    using assms by (simp add: add_raises_def st add_overflow_def)
  have two: "[0..<2] = [0, Suc 0]" by (simp add: upt_rec)
  have "\<exists>num. np_subtract ?st (astype_float ?b) (astype_float ?b) = Inr num"
    using quiet
    by (simp add: np_subtract_def astype_float_def float_ufunc_def broadcast2_same two)
  moreover have "np_add ?st ?b ?b = Inl FloatingPointError"
    using loud
    by (simp add: np_add_def float_ufunc_def broadcast2_same two)
  ultimately show ?thesis
    by (auto simp: ndvi_def Let_def)
qed

lemma ndvi_overflow_raises:
  "snd (ndvi (np_default_errstate\<lparr>over := Raise\<rparr>)
          \<lparr>shape = [2], dat = Float64 [Fin 0, Fin (2 ^ 1023)]\<rparr>
          \<lparr>shape = [2], dat = Float64 [Fin 0, Fin (2 ^ 1023)]\<rparr>) = Inl FloatingPointError"
  by (rule ndvi_raises_on_overflow [OF double_overflows])

subsection \<open>The dataset handle\<close>

text \<open>
  What the caller of the masked read gets: the exception of a failed open, or else what
  the masking returned or raised with \<open>crop=True\<close>. Nothing is caught on the way.
\<close>

lemma read_masked_result:
  "snd (read_masked mask_fn url shapes w) =
     (case store w url of None \<Rightarrow> Inl RasterioIOError | Some src \<Rightarrow> mask_fn src shapes True)"
  by (simp add: read_masked_def rasterio_open_def Let_def split: option.split)

lemma read_masked_opened:
  "opened (fst (read_masked mask_fn url shapes w)) = opened w"
proof (cases "store w url")
  case None
  then show ?thesis
    by (simp add: read_masked_def rasterio_open_def)
next
  case (Some src)
  then have "fst (read_masked mask_fn url shapes w)
             = dataset_close url (w\<lparr>opened := url # opened w\<rparr>)"
    by (simp add: read_masked_def rasterio_open_def Let_def)
  then show ?thesis
    by (simp add: dataset_close_def)
qed

text \<open>
  C9. Whatever the location serves and whatever the masking returns or raises, the
  process holds the same dataset handles after the masked read as before it: a failed
  open acquires none, and the handle of a successful open is closed on the way out of the
  \<open>with\<close> block, after a result as after an exception. The same holds after the two
  reads of the notebook, one after the other.
\<close>

theorem read_masked_releases_handle:
  "opened (fst (read_masked mask_fn url shapes w)) = opened w \<and>
   opened (fst (read_masked mask_fn url' shapes' (fst (read_masked mask_fn url shapes w))))
     = opened w"
proof
  show "opened (fst (read_masked mask_fn url shapes w)) = opened w"
    by (rule read_masked_opened)
  have "opened (fst (read_masked mask_fn url' shapes' (fst (read_masked mask_fn url shapes w))))
        = opened (fst (read_masked mask_fn url shapes w))"
    by (rule read_masked_opened)
  also have "\<dots> = opened w"
    by (rule read_masked_opened)
  finally show
    "opened (fst (read_masked mask_fn url' shapes' (fst (read_masked mask_fn url shapes w))))
     = opened w" .
qed

subsection \<open>The error state left behind\<close>

text \<open>
  C10, as the code has it. The cell leaves numpy's error state with \<open>divide\<close> and
  \<open>invalid\<close> set to \<open>ignore\<close> and with \<open>over\<close> and \<open>under\<close> as they were; the
  setting stays after the cell has run.
\<close>

theorem ndvi_errstate_after:
  "fst (ndvi st b3 b4) = st\<lparr>divide := Ignore, invalid := Ignore\<rparr>"
  by (simp add: ndvi_def Let_def seterr_def)

text \<open>
  C10 as stated fails: from numpy's initial error state the cell leaves a different one.
\<close>

theorem ndvi_errstate_counterexample:
  "fst (ndvi np_default_errstate \<lparr>shape = [1, 1], dat = UInt16 [3]\<rparr>
          \<lparr>shape = [1, 1], dat = UInt16 [5]\<rparr>) \<noteq> np_default_errstate"
  by (simp add: ndvi_def Let_def seterr_def np_default_errstate_def)

end
